theory Spec2Isabelle
  imports Complex_Main "HOL-Library.Sublist"
begin

section \<open>Data model of the telemetry component\<close>

text \<open>
  The component \<open>SimagicPedalTelemetry\<close> keeps its state in React state cells. The
  embedding collects the cells in one record and turns every callback (the poll timer, the
  history timer, the refresh button, the draw effect) into a function on that record.
  JavaScript numbers are modelled as reals (exact arithmetic, no NaN and no rounding),
  \<open>Date.now()\<close> as an integer number of milliseconds passed to the callback that reads
  it, and strings as lists of 8-bit characters (identifiers are taken to be ASCII).

  \<open>pollGamepads\<close> is a closure created by an effect whose dependency list is
  \<open>[lastUpdate]\<close>. It reads \<open>throttle\<close>, \<open>brake\<close> and \<open>lastUpdate\<close> as they were in the
  render that created it, and it is created anew only in a render in which \<open>lastUpdate\<close>
  differs from the previous render. Its \<open>lastUpdate\<close> is therefore always the stored one;
  its \<open>throttle\<close> and \<open>brake\<close> can lag behind the stored ones, and they are kept in the
  two fields \<open>closureThrottle\<close> and \<open>closureBrake\<close>. The closure of the history timer
  depends on \<open>[throttle, brake, steering]\<close>, the three values it reads, so it always sees
  the stored ones.
\<close>

record SessionStats =
  startTime :: int
  peakThrottle :: real
  peakBrake :: real
  peakSteering :: real

record HistoryItem =
  h_throttle :: real
  h_brake :: real
  h_steering :: real

text \<open>One slot of \<open>navigator.getGamepads()\<close>; an empty slot is \<open>None\<close>.\<close>

record Gamepad =
  gid :: string
  axes :: "real list"

text \<open>The four strings stored in \<open>connectionStatus\<close>.\<close>

datatype ConnectionStatus = Polling | Connected | ConnectedGeneric | NoDevice

record DebugInfo =
  d_name :: string
  d_axes :: "(nat \<times> real) list"

record TelemetryState =
  throttle :: real
  brake :: real
  steering :: real
  steeringAngle :: real
  history :: "HistoryItem list"
  connectionStatus :: ConnectionStatus
  lastUpdate :: int
  debugInfo :: "DebugInfo option"
  sessionStats :: SessionStats
  closureThrottle :: real
  closureBrake :: real

definition maxHistory :: nat where
  "maxHistory = 200"

text \<open>The state of the first render, mounted at time \<open>now\<close>.\<close>

definition initialState :: "int \<Rightarrow> TelemetryState" where
  "initialState now =
     \<lparr>throttle = 0, brake = 0, steering = 0, steeringAngle = 0, history = [],
      connectionStatus = Polling, lastUpdate = now, debugInfo = None,
      sessionStats = \<lparr>startTime = now, peakThrottle = 0, peakBrake = 0, peakSteering = 0\<rparr>,
      closureThrottle = 0, closureBrake = 0\<rparr>"

section \<open>Device matching\<close>

text \<open>\<open>String.prototype.toLowerCase\<close> on ASCII text.\<close>

definition toLowerChar :: "char \<Rightarrow> char" where
  "toLowerChar c =
     (case map_of (zip ''ABCDEFGHIJKLMNOPQRSTUVWXYZ'' ''abcdefghijklmnopqrstuvwxyz'') c of
        Some l \<Rightarrow> l
      | None \<Rightarrow> c)"

definition toLowerCase :: "string \<Rightarrow> string" where
  "toLowerCase s = map toLowerChar s"

text \<open>\<open>s.includes(t)\<close>: \<open>t\<close> occurs in \<open>s\<close> at some position.\<close>

fun includes_str :: "string \<Rightarrow> string \<Rightarrow> bool" where
  "includes_str [] t = (t = [])"
| "includes_str (c # cs) t = (prefix t (c # cs) \<or> includes_str cs t)"

text \<open>The condition of the match loop on a non-empty slot.\<close>

definition isMatch :: "Gamepad \<Rightarrow> bool" where
  "isMatch gamepad =
     (includes_str (toLowerCase (gid gamepad)) ''simagic'' \<or>
      includes_str (toLowerCase (gid gamepad)) ''p1000'' \<or>
      includes_str (toLowerCase (gid gamepad)) ''p2000'' \<or>
      length (axes gamepad) \<ge> 3)"

text \<open>
  The \<open>for\<close> loop over the slots: it leaves at the first non-empty slot that satisfies
  the condition (\<open>break\<close>); \<open>foundSimagic\<close> is true exactly when the result is \<open>Some\<close>.
\<close>

fun matchLoop :: "Gamepad option list \<Rightarrow> Gamepad option" where
  "matchLoop [] = None"
| "matchLoop (None # gamepads) = matchLoop gamepads"
| "matchLoop (Some gamepad # gamepads) =
     (if isMatch gamepad then Some gamepad else matchLoop gamepads)"

section \<open>Signal normalisation\<close>

text \<open>\<open>axes[i]\<close>, with \<open>None\<close> for JavaScript's \<open>undefined\<close> past the end of the array.\<close>

definition axisAt :: "real list \<Rightarrow> nat \<Rightarrow> real option" where
  "axisAt xs i = (if i < length xs then Some (xs ! i) else None)"

text \<open>\<open>axes[i] !== undefined ? axes[i] : d\<close>.\<close>

definition definedOr :: "real option \<Rightarrow> real \<Rightarrow> real" where
  "definedOr v d = (case v of Some x \<Rightarrow> x | None \<Rightarrow> d)"

text \<open>
  JavaScript's \<open>a || b\<close> on numbers: \<open>undefined\<close> and \<open>0\<close> are falsy, so the right
  operand is taken for both. \<open>orOpt\<close> is the operator between two array reads, \<open>orNum\<close>
  the operator with a number literal on the right.
\<close>

definition orOpt :: "real option \<Rightarrow> real option \<Rightarrow> real option" where
  "orOpt a b = (case a of Some x \<Rightarrow> if x = 0 then b else Some x | None \<Rightarrow> b)"

definition orNum :: "real option \<Rightarrow> real \<Rightarrow> real" where
  "orNum a d = (case a of Some x \<Rightarrow> if x = 0 then d else x | None \<Rightarrow> d)"

definition newThrottle :: "real \<Rightarrow> real \<Rightarrow> real" where
  "newThrottle throttleAxis throttle0 =
     (if throttleAxis = 0 \<and> throttle0 = 0 then 0 else ((throttleAxis + 1) / 2) * 100)"

definition newBrake :: "real \<Rightarrow> real \<Rightarrow> real" where
  "newBrake brakeAxis brake0 =
     (if brakeAxis = 0 \<and> brake0 = 0 then 0 else ((brakeAxis + 1) / 2) * 100)"

section \<open>The poll callback\<close>

text \<open>
  The body of the matched branch. The \<open>throttle\<close> and \<open>brake\<close> tested by the two
  conditional expressions are the ones the closure captured. The diagnostic record keeps
  each axis value itself; the source stores its three-decimal rendering, which only the
  debug panel reads.
\<close>

definition matchedUpdate :: "int \<Rightarrow> Gamepad \<Rightarrow> TelemetryState \<Rightarrow> TelemetryState" where
  "matchedUpdate now gamepad s =
     (let throttleAxis = definedOr (axisAt (axes gamepad) 1) (- 1);
          brakeAxis = definedOr (axisAt (axes gamepad) 2) (- 1);
          steeringAxis = definedOr (axisAt (axes gamepad) 0) 0;
          nT = newThrottle throttleAxis (closureThrottle s);
          nB = newBrake brakeAxis (closureBrake s);
          rawSteeringAngle = steeringAxis * 450;
          newSteering = \<bar>steeringAxis\<bar> * 100;
          prev = sessionStats s
      in s\<lparr>debugInfo := Some \<lparr>d_name = gid gamepad,
                                 d_axes = zip [0..<length (axes gamepad)] (axes gamepad)\<rparr>,
            throttle := nT,
            brake := nB,
            steering := newSteering,
            steeringAngle := rawSteeringAngle,
            sessionStats := prev\<lparr>peakThrottle := max (peakThrottle prev) nT,
                                   peakBrake := max (peakBrake prev) nB,
                                   peakSteering := max (peakSteering prev) \<bar>rawSteeringAngle\<bar>\<rparr>,
            lastUpdate := now,
            connectionStatus := Connected\<rparr>)"

text \<open>The body of the fallback branch, for the first non-empty slot.\<close>

definition genericUpdate :: "int \<Rightarrow> Gamepad \<Rightarrow> TelemetryState \<Rightarrow> TelemetryState" where
  "genericUpdate now gamepad s =
     (if length (axes gamepad) \<ge> 2 then
        (let tAxis = orNum (axisAt (axes gamepad) 1) (- 1);
             bAxis = orNum (orOpt (axisAt (axes gamepad) 2) (axisAt (axes gamepad) 0)) 0;
             cAxis = orNum (axisAt (axes gamepad) 0) 0
         in s\<lparr>throttle := ((1 - tAxis) / 2) * 100,
               brake := ((1 - bAxis) / 2) * 100,
               steering := ((1 - cAxis) / 2) * 100,
               steeringAngle := cAxis * 450,
               lastUpdate := now,
               connectionStatus := ConnectedGeneric\<rparr>)
      else s)"

text \<open>
  \<open>pollGamepads\<close>, run with the slots returned by \<open>navigator.getGamepads()\<close> and the
  clock reading \<open>now\<close>.
\<close>

definition pollGamepads :: "int \<Rightarrow> Gamepad option list \<Rightarrow> TelemetryState \<Rightarrow> TelemetryState" where
  "pollGamepads now gamepads s =
     (case matchLoop gamepads of
        Some gamepad \<Rightarrow> matchedUpdate now gamepad s
      | None \<Rightarrow>
          if list_ex (\<lambda>g. g \<noteq> None) gamepads then
            (case List.find (\<lambda>g. g \<noteq> None) gamepads of
               Some (Some gamepad) \<Rightarrow> genericUpdate now gamepad s
             | _ \<Rightarrow> s)
          else if now - lastUpdate s > 2000 then s\<lparr>connectionStatus := NoDevice\<rparr>
          else s)"

section \<open>The history timer\<close>

text \<open>The updater passed to \<open>setHistory\<close>: append, then drop the head when too long.\<close>

definition appendHistory :: "HistoryItem list \<Rightarrow> HistoryItem \<Rightarrow> HistoryItem list" where
  "appendHistory prev item =
     (let newHistory = prev @ [item]
      in if length newHistory > maxHistory then tl newHistory else newHistory)"

definition historyTick :: "TelemetryState \<Rightarrow> TelemetryState" where
  "historyTick s =
     s\<lparr>history := appendHistory (history s)
          \<lparr>h_throttle = throttle s, h_brake = brake s, h_steering = steering s\<rparr>\<rparr>"

section \<open>Manual refresh\<close>

definition refresh :: "int \<Rightarrow> TelemetryState \<Rightarrow> TelemetryState" where
  "refresh now s = s\<lparr>connectionStatus := Polling, lastUpdate := now\<rparr>"

section \<open>Event traces\<close>

text \<open>
  The effect that installs the poll timer, in the render that follows a callback: when
  \<open>lastUpdate\<close> is not the one of the render \<open>before\<close>, the timer is installed anew with a
  closure over the \<open>throttle\<close> and \<open>brake\<close> of the render \<open>after\<close>; otherwise the old
  closure stays.
\<close>

definition pollEffect :: "TelemetryState \<Rightarrow> TelemetryState \<Rightarrow> TelemetryState" where
  "pollEffect before after =
     (if lastUpdate after = lastUpdate before then after
      else after\<lparr>closureThrottle := throttle after, closureBrake := brake after\<rparr>)"

text \<open>
  The callbacks run one at a time on a single thread, each followed by a render. A trace
  lists them in the order in which they ran, each with the clock reading it saw.
\<close>

datatype Event = Poll int "Gamepad option list" | HistoryTick | Refresh int

fun step :: "TelemetryState \<Rightarrow> Event \<Rightarrow> TelemetryState" where
  "step s (Poll now gamepads) = pollEffect s (pollGamepads now gamepads s)"
| "step s HistoryTick = pollEffect s (historyTick s)"
| "step s (Refresh now) = pollEffect s (refresh now s)"

definition run :: "TelemetryState \<Rightarrow> Event list \<Rightarrow> TelemetryState" where
  "run s evs = foldl step s evs"

section \<open>The draw effect\<close>

text \<open>
  The canvas is an output device; the effect is modelled by the list of calls it makes on
  the 2D context, in order. \<open>canvasRef.current\<close> may be null, and so may the context.
\<close>

datatype CanvasOp =
    SetFillStyle string
  | FillRect real real real real
  | SetStrokeStyle string
  | SetLineWidth real
  | BeginPath
  | MoveTo real real
  | LineTo real real
  | Stroke

record Canvas =
  c_width :: real
  c_height :: real
  c_context :: bool

text \<open>
  What one run of the effect did: the context calls, and the indices at which it read the
  history array.
\<close>

record DrawResult =
  ops :: "CanvasOp list"
  reads :: "nat list"

text \<open>
  \<open>history.forEach(callback)\<close> from index \<open>k\<close> on: the callback receives the element at
  each index below the length, and its index.
\<close>

function forEachFrom :: "nat \<Rightarrow> HistoryItem list \<Rightarrow> (HistoryItem \<Rightarrow> nat \<Rightarrow> CanvasOp) \<Rightarrow> DrawResult" where
  "forEachFrom k xs callback =
     (if k < length xs then
        (let r = forEachFrom (Suc k) xs callback
         in \<lparr>ops = callback (xs ! k) k # ops r, reads = k # reads r\<rparr>)
      else \<lparr>ops = [], reads = []\<rparr>)"
  by pat_completeness auto
termination
  by (relation "measure (\<lambda>(k, xs, callback). length xs - k)") auto

declare forEachFrom.simps [simp del]

definition drawAxis :: "real \<Rightarrow> real \<Rightarrow> HistoryItem list \<Rightarrow> string \<Rightarrow> (HistoryItem \<Rightarrow> real) \<Rightarrow> DrawResult" where
  "drawAxis xStep height hist color dataKey =
     (let r = forEachFrom 0 hist
                (\<lambda>point i.
                   let x = real i * xStep;
                       y = height - (dataKey point / 100) * height
                   in if i = 0 then MoveTo x y else LineTo x y)
      in \<lparr>ops = [SetStrokeStyle color, SetLineWidth 2.5, BeginPath] @ ops r @ [Stroke],
          reads = reads r\<rparr>)"

text \<open>The loop \<open>for (let i = 0; i <= 4; i++)\<close> that strokes the horizontal grid lines.\<close>

definition gridLines :: "real \<Rightarrow> real \<Rightarrow> CanvasOp list" where
  "gridLines width height =
     concat (map (\<lambda>i. let y = (height / 4) * real i
                       in [BeginPath, MoveTo 0 y, LineTo width y, Stroke]) [0..<5])"

definition draw :: "Canvas option \<Rightarrow> HistoryItem list \<Rightarrow> DrawResult" where
  "draw canvasRef hist =
     (case canvasRef of
        None \<Rightarrow> \<lparr>ops = [], reads = []\<rparr>
      | Some canvas \<Rightarrow>
          if c_context canvas then
            (let width = c_width canvas;
                 height = c_height canvas;
                 grid = [SetFillStyle ''#0a0a0a'', FillRect 0 0 width height,
                         SetStrokeStyle ''#2a2a2a'', SetLineWidth 1] @ gridLines width height
             in if length hist < 2 then \<lparr>ops = grid, reads = []\<rparr>
                else
                  (let xStep = width / real (maxHistory - 1);
                       t = drawAxis xStep height hist ''#00c73cff'' h_throttle;
                       b = drawAxis xStep height hist ''#ef4444'' h_brake;
                       c = drawAxis xStep height hist ''#3b82f6'' h_steering
                   in \<lparr>ops = grid @ ops t @ ops b @ ops c,
                       reads = reads t @ reads b @ reads c\<rparr>))
          else \<lparr>ops = [], reads = []\<rparr>)"

section \<open>Conditions on events used in the statements\<close>

text \<open>An event that reads the clock reads a time not before, or not after, \<open>t\<close>.\<close>

fun notBefore :: "int \<Rightarrow> Event \<Rightarrow> bool" where
  "notBefore t (Poll now gamepads) = (t \<le> now)"
| "notBefore t HistoryTick = True"
| "notBefore t (Refresh now) = (t \<le> now)"

fun notAfter :: "int \<Rightarrow> Event \<Rightarrow> bool" where
  "notAfter t (Poll now gamepads) = (now \<le> t)"
| "notAfter t HistoryTick = True"
| "notAfter t (Refresh now) = (now \<le> t)"

text \<open>
  A poll result in which some slot is non-empty, no slot matches, and every non-empty slot
  has fewer than two axes.
\<close>

fun fewAxes :: "Gamepad option \<Rightarrow> bool" where
  "fewAxes None = True"
| "fewAxes (Some gamepad) = (length (axes gamepad) < 2)"

definition presentUnusable :: "Gamepad option list \<Rightarrow> bool" where
  "presentUnusable gamepads =
     (list_ex (\<lambda>g. g \<noteq> None) gamepads \<and> matchLoop gamepads = None \<and> list_all fewAxes gamepads)"

text \<open>
  The items that the history timer appended along a trace, in the order of arrival: one
  for each \<open>HistoryTick\<close>, holding the readings stored when it ran.
\<close>

fun appended :: "TelemetryState \<Rightarrow> Event list \<Rightarrow> HistoryItem list" where
  "appended s [] = []"
| "appended s (HistoryTick # evs) =
     \<lparr>h_throttle = throttle s, h_brake = brake s, h_steering = steering s\<rparr>
       # appended (step s HistoryTick) evs"
| "appended s (Poll now gamepads # evs) = appended (step s (Poll now gamepads)) evs"
| "appended s (Refresh now # evs) = appended (step s (Refresh now)) evs"

text \<open>The poll closure sees the stored pedal percentages.\<close>

definition inSync :: "TelemetryState \<Rightarrow> bool" where
  "inSync s = (closureThrottle s = throttle s \<and> closureBrake s = brake s)"

text \<open>An event that reads the clock reads a value other than the stored \<open>lastUpdate\<close>.\<close>

fun clockMoved :: "TelemetryState \<Rightarrow> Event \<Rightarrow> bool" where
  "clockMoved s (Poll now gamepads) = (now \<noteq> lastUpdate s)"
| "clockMoved s HistoryTick = True"
| "clockMoved s (Refresh now) = (now \<noteq> lastUpdate s)"

fun pollsUnusable :: "Event \<Rightarrow> bool" where
  "pollsUnusable (Poll now gamepads) = presentUnusable gamepads"
| "pollsUnusable HistoryTick = True"
| "pollsUnusable (Refresh now) = True"

section \<open>Facts about one poll\<close>

lemma pollEffect_frame [simp]:
  "history (pollEffect s s') = history s'"
  "lastUpdate (pollEffect s s') = lastUpdate s'"
  "connectionStatus (pollEffect s s') = connectionStatus s'"
  "sessionStats (pollEffect s s') = sessionStats s'"
  "throttle (pollEffect s s') = throttle s'"
  "brake (pollEffect s s') = brake s'"
  "steering (pollEffect s s') = steering s'"
  "steeringAngle (pollEffect s s') = steeringAngle s'"
  by (simp_all add: pollEffect_def)

lemma pollEffect_same [simp]: "pollEffect s s = s"
  by (simp add: pollEffect_def)

lemma pollGamepads_matched:
  "matchLoop gamepads = Some gamepad \<Longrightarrow> pollGamepads now gamepads s = matchedUpdate now gamepad s"
  by (simp add: pollGamepads_def)

lemma history_matchedUpdate: "history (matchedUpdate now gamepad s) = history s"
  by (simp add: matchedUpdate_def Let_def)

lemma history_genericUpdate: "history (genericUpdate now gamepad s) = history s"
  by (simp add: genericUpdate_def Let_def)

lemma history_pollGamepads: "history (pollGamepads now gamepads s) = history s"
  by (simp add: pollGamepads_def history_matchedUpdate history_genericUpdate
      split: option.splits)

lemma lastUpdate_pollGamepads:
  "lastUpdate (pollGamepads now gamepads s) = lastUpdate s \<or>
   lastUpdate (pollGamepads now gamepads s) = now"
  by (simp add: pollGamepads_def matchedUpdate_def genericUpdate_def Let_def
      split: option.splits)

lemma noDevice_pollGamepads:
  "connectionStatus (pollGamepads now gamepads s) = NoDevice \<Longrightarrow>
   connectionStatus s = NoDevice \<or> 2000 < now - lastUpdate s"
  by (simp add: pollGamepads_def matchedUpdate_def genericUpdate_def Let_def
      split: option.splits if_splits)

lemma lastUpdate_step: "notBefore t e \<Longrightarrow> t \<le> lastUpdate s \<Longrightarrow> t \<le> lastUpdate (step s e)"
proof (cases e)
  case (Poll now gamepads)
  assume "notBefore t e" "t \<le> lastUpdate s"
  with Poll lastUpdate_pollGamepads[of now gamepads s] show ?thesis by auto
next
  case HistoryTick
  assume "t \<le> lastUpdate s"
  with HistoryTick show ?thesis by (simp add: historyTick_def)
next
  case (Refresh now)
  assume "notBefore t e"
  with Refresh show ?thesis by (simp add: refresh_def)
qed

lemma lastUpdate_run:
  "list_all (notBefore t) evs \<Longrightarrow> t \<le> lastUpdate s \<Longrightarrow> t \<le> lastUpdate (run s evs)"
  unfolding run_def
  by (induction evs arbitrary: s) (simp_all add: lastUpdate_step)

lemma status_step:
  assumes "notBefore t e" "notAfter (t + 2000) e" "t \<le> lastUpdate s" "connectionStatus s \<noteq> NoDevice"
  shows "connectionStatus (step s e) \<noteq> NoDevice"
proof (cases e)
  case (Poll now gamepads)
  with assms have "now - lastUpdate s \<le> 2000" by simp
  with noDevice_pollGamepads[of now gamepads s] assms(4) Poll show ?thesis by auto
next
  case HistoryTick
  with assms(4) show ?thesis by (simp add: historyTick_def)
next
  case (Refresh now)
  then show ?thesis by (simp add: refresh_def)
qed

lemma status_run:
  "list_all (notBefore t) evs \<Longrightarrow> list_all (notAfter (t + 2000)) evs \<Longrightarrow>
   t \<le> lastUpdate s \<Longrightarrow> connectionStatus s \<noteq> NoDevice \<Longrightarrow>
   connectionStatus (run s evs) \<noteq> NoDevice"
  unfolding run_def
proof (induction evs arbitrary: s)
  case Nil
  then show ?case by simp
next
  case (Cons e evs)
  from Cons.prems have e: "notBefore t e" "notAfter (t + 2000) e"
    and r: "list_all (notBefore t) evs" "list_all (notAfter (t + 2000)) evs" by simp_all
  have "t \<le> lastUpdate (step s e)" using e(1) Cons.prems(3) by (rule lastUpdate_step)
  moreover have "connectionStatus (step s e) \<noteq> NoDevice"
    using e Cons.prems(3,4) by (rule status_step)
  ultimately show ?case using Cons.IH[OF r] by simp
qed

lemma matched_state:
  "matchLoop gamepads = Some gamepad \<Longrightarrow>
   lastUpdate (pollGamepads t gamepads s) = t \<and> connectionStatus (pollGamepads t gamepads s) = Connected"
  by (simp add: pollGamepads_def matchedUpdate_def Let_def)

section \<open>Manual refresh keeps history and statistics\<close>

text \<open>
  Claim C9. The refresh operation sets the connection state to the searching state
  (\<open>polling\<close>) and the last-update timestamp to the current time; the history buffer and
  the session statistics (and the current readings) are the ones it was given.
\<close>

theorem refresh_frame:
  "connectionStatus (refresh now s) = Polling \<and>
   lastUpdate (refresh now s) = now \<and>
   history (refresh now s) = history s \<and>
   sessionStats (refresh now s) = sessionStats s \<and>
   throttle (refresh now s) = throttle s \<and>
   brake (refresh now s) = brake s \<and>
   steering (refresh now s) = steering s \<and>
   steeringAngle (refresh now s) = steeringAngle s"
  by (simp add: refresh_def)

section \<open>The history buffer is a bounded sliding window\<close>

lemma appendHistory_eq_drop:
  assumes "length d \<le> maxHistory"
  shows "appendHistory d x = drop (Suc (length d) - maxHistory) (d @ [x])"
proof (cases "length d < maxHistory")
  case True
  then show ?thesis by (simp add: appendHistory_def)
next
  case False
  with assms have l: "length d = maxHistory" by simp
  then have "Suc (length d) - maxHistory = Suc 0" by simp
  moreover have "appendHistory d x = tl (d @ [x])" using l by (simp add: appendHistory_def)
  ultimately show ?thesis by (simp only: drop_Suc drop_0)
qed

lemma foldl_appendHistory:
  "length h \<le> maxHistory \<Longrightarrow>
   foldl appendHistory h xs = drop (length h + length xs - maxHistory) (h @ xs)"
proof (induction xs rule: rev_induct)
  case Nil
  then show ?case by simp
next
  case (snoc x xs)
  let ?n = "length h + length xs"
  let ?d = "drop (?n - maxHistory) (h @ xs)"
  have d: "foldl appendHistory h xs = ?d" using snoc by simp
  have ld: "length ?d \<le> maxHistory" by simp
  have le: "?n - maxHistory \<le> length (h @ xs)" by simp
  have "foldl appendHistory h (xs @ [x]) = appendHistory ?d x" using d by simp
  also have "\<dots> = drop (Suc (length ?d) - maxHistory) (?d @ [x])"
    using ld by (rule appendHistory_eq_drop)
  also have "?d @ [x] = drop (?n - maxHistory) ((h @ xs) @ [x])"
    using le by (simp only: drop_append diff_is_0_eq' drop_0)
  also have "drop (Suc (length ?d) - maxHistory) (drop (?n - maxHistory) ((h @ xs) @ [x]))
      = drop ((Suc (length ?d) - maxHistory) + (?n - maxHistory)) ((h @ xs) @ [x])"
    by (simp only: drop_drop)
  also have "(Suc (length ?d) - maxHistory) + (?n - maxHistory) = Suc ?n - maxHistory"
    by (simp add: maxHistory_def)
  finally show ?case by simp
qed

lemma length_appendHistory:
  "length h \<le> maxHistory \<Longrightarrow> length (appendHistory h x) \<le> maxHistory"
  by (simp add: appendHistory_def Let_def)

lemma length_history_step:
  "length (history s) \<le> maxHistory \<Longrightarrow> length (history (step s e)) \<le> maxHistory"
  by (cases e) (simp_all add: history_pollGamepads historyTick_def refresh_def length_appendHistory)

lemma length_history_run:
  "length (history s) \<le> maxHistory \<Longrightarrow> length (history (run s evs)) \<le> maxHistory"
  unfolding run_def
proof (induction evs arbitrary: s)
  case Nil
  then show ?case by simp
next
  case (Cons e evs)
  from Cons.prems have "length (history (step s e)) \<le> maxHistory" by (rule length_history_step)
  then show ?case using Cons.IH by simp
qed

lemma history_step_tick:
  "history (step s HistoryTick) =
     appendHistory (history s)
       \<lparr>h_throttle = throttle s, h_brake = brake s, h_steering = steering s\<rparr>"
  by (simp add: historyTick_def)

lemma history_step_poll: "history (step s (Poll now gamepads)) = history s"
  by (simp add: history_pollGamepads)

lemma history_step_refresh: "history (step s (Refresh now)) = history s"
  by (simp add: refresh_def)

lemma history_run_appended:
  "history (run s evs) = foldl appendHistory (history s) (appended s evs)"
  unfolding run_def
proof (induction evs arbitrary: s)
  case Nil
  then show ?case by simp
next
  case (Cons e evs)
  note IH = Cons.IH[of "step s e"]
  show ?case
  proof (cases e)
    case (Poll now gamepads)
    have "appended s (e # evs) = appended (step s e) evs"
      unfolding Poll by (simp only: appended.simps)
    moreover have "history (step s e) = history s"
      unfolding Poll by (rule history_step_poll)
    ultimately show ?thesis using IH by (simp only: foldl_Cons)
  next
    case HistoryTick
    let ?item = "\<lparr>h_throttle = throttle s, h_brake = brake s, h_steering = steering s\<rparr>"
    have "appended s (e # evs) = ?item # appended (step s e) evs"
      unfolding HistoryTick by (simp only: appended.simps)
    moreover have "history (step s e) = appendHistory (history s) ?item"
      unfolding HistoryTick by (rule history_step_tick)
    ultimately show ?thesis using IH by (simp only: foldl_Cons)
  next
    case (Refresh now)
    have "appended s (e # evs) = appended (step s e) evs"
      unfolding Refresh by (simp only: appended.simps)
    moreover have "history (step s e) = history s"
      unfolding Refresh by (rule history_step_refresh)
    ultimately show ?thesis using IH by (simp only: foldl_Cons)
  qed
qed

lemma readings_step_tick:
  "throttle (step s HistoryTick) = throttle s"
  "brake (step s HistoryTick) = brake s"
  "steering (step s HistoryTick) = steering s"
  by (simp_all add: historyTick_def)

lemma appended_replicate:
  "appended s (replicate n HistoryTick) =
     replicate n \<lparr>h_throttle = throttle s, h_brake = brake s, h_steering = steering s\<rparr>"
proof (induction n arbitrary: s)
  case 0
  then show ?case by simp
next
  case (Suc n)
  show ?case
    using Suc[of "step s HistoryTick"]
    by (simp only: replicate_Suc appended.simps readings_step_tick)
qed

text \<open>
  Claim C1. Whatever callbacks run after the first render, the history buffer holds at most
  200 entries, and it is the last 200 of the items that the history timer appended, in the
  order of arrival; so once 201 items were appended, the first entry of the buffer is the
  item appended second, the oldest one having been dropped. The same is stated for the
  updater alone, applied to the items of any list from the empty buffer.
\<close>

theorem history_bounded_fifo:
  "length (history (run (initialState t0) evs)) \<le> 200 \<and>
   history (run (initialState t0) evs) =
     drop (length (appended (initialState t0) evs) - 200) (appended (initialState t0) evs) \<and>
   (length (appended (initialState t0) evs) = 201 \<longrightarrow>
      hd (history (run (initialState t0) evs)) = appended (initialState t0) evs ! 1) \<and>
   length (foldl appendHistory [] items) \<le> 200 \<and>
   foldl appendHistory [] items = drop (length items - 200) items \<and>
   (length items = 201 \<longrightarrow> hd (foldl appendHistory [] items) = items ! 1)"
proof -
  have f: "foldl appendHistory [] xs = drop (length xs - 200) xs" for xs
    using foldl_appendHistory[of "[]" xs] by (simp add: maxHistory_def)
  have h: "hd (foldl appendHistory [] xs) = xs ! 1" if "length xs = 201" for xs
    using that unfolding f by (simp add: hd_drop_conv_nth)
  let ?a = "appended (initialState t0) evs"
  have e: "history (initialState t0) = []" by (simp add: initialState_def)
  have r: "history (run (initialState t0) evs) = foldl appendHistory [] ?a"
    using history_run_appended[of "initialState t0" evs] e by simp
  have 1: "length (history (run (initialState t0) evs)) \<le> 200"
    unfolding r f by simp
  have 2: "history (run (initialState t0) evs) = drop (length ?a - 200) ?a"
    unfolding r by (rule f)
  have 3: "length ?a = 201 \<longrightarrow> hd (history (run (initialState t0) evs)) = ?a ! 1"
    unfolding r using h by blast
  have 4: "length (foldl appendHistory [] items) \<le> 200"
    unfolding f by simp
  have 5: "length items = 201 \<longrightarrow> hd (foldl appendHistory [] items) = items ! 1"
    using h by blast
  show ?thesis using 1 2 3 4 f[of items] 5 by blast
qed

theorem history_bounded_fifo_witness:
  "length (appended (initialState 0)
      (HistoryTick # Poll 16 [Some \<lparr>gid = ''Simagic P2000'', axes = [0.25, 0.5, - 0.5]\<rparr>]
         # replicate 200 HistoryTick)) = 201 \<and>
   hd (history (run (initialState 0)
      (HistoryTick # Poll 16 [Some \<lparr>gid = ''Simagic P2000'', axes = [0.25, 0.5, - 0.5]\<rparr>]
         # replicate 200 HistoryTick)))
     = \<lparr>h_throttle = 75, h_brake = 25, h_steering = 25\<rparr>"
proof -
  let ?g = "\<lparr>gid = ''Simagic P2000'', axes = [0.25, 0.5, - 0.5]\<rparr>"
  let ?evs = "HistoryTick # Poll 16 [Some ?g] # replicate 200 HistoryTick"
  let ?s2 = "step (step (initialState 0) HistoryTick) (Poll 16 [Some ?g])"
  have rd: "throttle ?s2 = 75" "brake ?s2 = 25" "steering ?s2 = 25"
    by (simp_all add: pollGamepads_def isMatch_def matchedUpdate_def historyTick_def
        pollEffect_def initialState_def axisAt_def definedOr_def newThrottle_def newBrake_def
        Let_def)
  have a: "appended (initialState 0) ?evs =
      \<lparr>h_throttle = 0, h_brake = 0, h_steering = 0\<rparr> #
      replicate 200 \<lparr>h_throttle = 75, h_brake = 25, h_steering = 25\<rparr>"
    unfolding appended.simps appended_replicate rd by (simp add: initialState_def)
  have l: "length (appended (initialState 0) ?evs) = 201" unfolding a by simp
  have n: "appended (initialState 0) ?evs ! 1 = \<lparr>h_throttle = 75, h_brake = 25, h_steering = 25\<rparr>"
    unfolding a by simp
  have "hd (history (run (initialState 0) ?evs)) = appended (initialState 0) ?evs ! 1"
    using history_bounded_fifo[of 0 ?evs "[]"] l by blast
  then have "hd (history (run (initialState 0) ?evs))
      = \<lparr>h_throttle = 75, h_brake = 25, h_steering = 25\<rparr>"
    using n by (rule trans)
  with l show ?thesis by (rule conjI)
qed

section \<open>Pedal percentages on the matched path\<close>

lemma throttle_matchedUpdate:
  "throttle (matchedUpdate now gamepad s) =
     newThrottle (definedOr (axisAt (axes gamepad) 1) (- 1)) (closureThrottle s)"
  by (simp add: matchedUpdate_def Let_def)

lemma brake_matchedUpdate:
  "brake (matchedUpdate now gamepad s) =
     newBrake (definedOr (axisAt (axes gamepad) 2) (- 1)) (closureBrake s)"
  by (simp add: matchedUpdate_def Let_def)

text \<open>
  What a matched poll computes, in terms of the percentages its closure captured: the
  formula on a reading in \<open>[-1, 1]\<close>, unless the reading and the captured percent are
  both 0, and 0 when they are.
\<close>

lemma matched_percentages:
  assumes "matchLoop gamepads = Some gamepad" and "- 1 \<le> a" and "a \<le> 1"
  shows "(axisAt (axes gamepad) 1 = Some a \<and> \<not> (a = 0 \<and> closureThrottle s = 0) \<longrightarrow>
            throttle (pollGamepads now gamepads s) = ((a + 1) / 2) * 100 \<and>
            0 \<le> throttle (pollGamepads now gamepads s) \<and>
            throttle (pollGamepads now gamepads s) \<le> 100) \<and>
         (axisAt (axes gamepad) 2 = Some a \<and> \<not> (a = 0 \<and> closureBrake s = 0) \<longrightarrow>
            brake (pollGamepads now gamepads s) = ((a + 1) / 2) * 100 \<and>
            0 \<le> brake (pollGamepads now gamepads s) \<and>
            brake (pollGamepads now gamepads s) \<le> 100)"
proof -
  have p: "pollGamepads now gamepads s = matchedUpdate now gamepad s"
    using assms(1) by (rule pollGamepads_matched)
  have r: "0 \<le> ((a + 1) / 2) * 100" "((a + 1) / 2) * 100 \<le> 100"
    using assms(2,3) by simp_all
  have t: "throttle (pollGamepads now gamepads s) = ((a + 1) / 2) * 100"
    if "axisAt (axes gamepad) 1 = Some a" "\<not> (a = 0 \<and> closureThrottle s = 0)"
    using that by (auto simp: p throttle_matchedUpdate definedOr_def newThrottle_def)
  have b: "brake (pollGamepads now gamepads s) = ((a + 1) / 2) * 100"
    if "axisAt (axes gamepad) 2 = Some a" "\<not> (a = 0 \<and> closureBrake s = 0)"
    using that by (auto simp: p brake_matchedUpdate definedOr_def newBrake_def)
  show ?thesis using t b r by metis
qed

lemma matched_zero:
  assumes "matchLoop gamepads = Some gamepad"
  shows "(axisAt (axes gamepad) 1 = Some 0 \<and> closureThrottle s = 0 \<longrightarrow>
            throttle (pollGamepads now gamepads s) = 0) \<and>
         (axisAt (axes gamepad) 2 = Some 0 \<and> closureBrake s = 0 \<longrightarrow>
            brake (pollGamepads now gamepads s) = 0)"
  using pollGamepads_matched[OF assms, of now s]
  by (simp add: throttle_matchedUpdate brake_matchedUpdate definedOr_def newThrottle_def newBrake_def)

text \<open>
  The captured percentages are the stored ones at the first render, and they stay so over
  every callback that reads a clock value other than the stored \<open>lastUpdate\<close>.
\<close>

lemma inSync_initialState: "inSync (initialState t0)"
  by (simp add: inSync_def initialState_def)

lemma inSync_step:
  assumes "inSync s" and "clockMoved s e"
  shows "inSync (step s e)"
proof (cases e)
  case (Poll now gamepads)
  with assms(2) have n: "now \<noteq> lastUpdate s" by simp
  let ?s' = "pollGamepads now gamepads s"
  have "lastUpdate ?s' = now \<or>
        (lastUpdate ?s' = lastUpdate s \<and> throttle ?s' = throttle s \<and> brake ?s' = brake s \<and>
         closureThrottle ?s' = closureThrottle s \<and> closureBrake ?s' = closureBrake s)"
    by (simp add: pollGamepads_def matchedUpdate_def genericUpdate_def Let_def
        split: option.splits)
  then show ?thesis
  proof
    assume "lastUpdate ?s' = now"
    with n Poll show ?thesis by (simp add: inSync_def pollEffect_def)
  next
    assume "lastUpdate ?s' = lastUpdate s \<and> throttle ?s' = throttle s \<and> brake ?s' = brake s \<and>
         closureThrottle ?s' = closureThrottle s \<and> closureBrake ?s' = closureBrake s"
    with Poll assms(1) show ?thesis by (simp add: inSync_def pollEffect_def)
  qed
next
  case HistoryTick
  with assms(1) show ?thesis by (simp add: inSync_def pollEffect_def historyTick_def)
next
  case (Refresh now)
  with assms(1) show ?thesis by (simp add: inSync_def pollEffect_def refresh_def)
qed

text \<open>
  Claim C2. The claim asks for \<open>((a + 1) / 2) * 100\<close> at every reading but the one where
  \<open>a\<close> is 0 and the stored percent is 0. Two polls that read the same clock value leave
  the closure of the first in place: after a poll at 16 ms with the throttle axis at
  \<open>-1\<close> and a poll at 16 ms with the axis at \<open>0.5\<close>, the stored throttle is 75 and
  the captured one is 0. A poll that then reads the axis at 0 gives 0, where the formula
  gives 50.
\<close>

theorem stale_closure_skips_formula:
  "throttle (run (initialState 0)
      [Poll 16 [Some \<lparr>gid = ''Simagic P2000'', axes = [0, - 1, - 1]\<rparr>],
       Poll 16 [Some \<lparr>gid = ''Simagic P2000'', axes = [0, 0.5, - 1]\<rparr>]]) = 75 \<and>
   closureThrottle (run (initialState 0)
      [Poll 16 [Some \<lparr>gid = ''Simagic P2000'', axes = [0, - 1, - 1]\<rparr>],
       Poll 16 [Some \<lparr>gid = ''Simagic P2000'', axes = [0, 0.5, - 1]\<rparr>]]) = 0 \<and>
   throttle (run (initialState 0)
      [Poll 16 [Some \<lparr>gid = ''Simagic P2000'', axes = [0, - 1, - 1]\<rparr>],
       Poll 16 [Some \<lparr>gid = ''Simagic P2000'', axes = [0, 0.5, - 1]\<rparr>],
       Poll 32 [Some \<lparr>gid = ''Simagic P2000'', axes = [0, 0, - 1]\<rparr>]]) = 0 \<and>
   ((0 + 1) / 2) * 100 = (50::real)"
  by (simp add: run_def pollEffect_def pollGamepads_def isMatch_def matchedUpdate_def
      axisAt_def definedOr_def newThrottle_def newBrake_def initialState_def Let_def)

text \<open>
  Claim C4. The claim asks for 0 whenever the axis reads 0 and the stored percent is 0.
  After a poll at 16 ms with the throttle axis at \<open>0.5\<close> and a poll at 16 ms with the
  axis at \<open>-1\<close>, the stored throttle is 0 and the captured one is 75. A poll that then
  reads the axis at 0 gives 50.
\<close>

theorem stale_closure_skips_debounce:
  "throttle (run (initialState 0)
      [Poll 16 [Some \<lparr>gid = ''Simagic P2000'', axes = [0, 0.5, - 1]\<rparr>],
       Poll 16 [Some \<lparr>gid = ''Simagic P2000'', axes = [0, - 1, - 1]\<rparr>]]) = 0 \<and>
   closureThrottle (run (initialState 0)
      [Poll 16 [Some \<lparr>gid = ''Simagic P2000'', axes = [0, 0.5, - 1]\<rparr>],
       Poll 16 [Some \<lparr>gid = ''Simagic P2000'', axes = [0, - 1, - 1]\<rparr>]]) = 75 \<and>
   throttle (run (initialState 0)
      [Poll 16 [Some \<lparr>gid = ''Simagic P2000'', axes = [0, 0.5, - 1]\<rparr>],
       Poll 16 [Some \<lparr>gid = ''Simagic P2000'', axes = [0, - 1, - 1]\<rparr>],
       Poll 32 [Some \<lparr>gid = ''Simagic P2000'', axes = [0, 0, - 1]\<rparr>]]) = 50"
  by (simp add: run_def pollEffect_def pollGamepads_def isMatch_def matchedUpdate_def
      axisAt_def definedOr_def newThrottle_def newBrake_def initialState_def Let_def)

section \<open>The no-device timeout\<close>

text \<open>
  Claim C3. Take a poll at time \<open>t\<close> that finds a matching device, followed by any
  callbacks whose clock readings are not before \<open>t\<close>. If a later poll at time \<open>now\<close>
  moves the connection state to \<open>no-device\<close>, then more than 2000 ms (so at least
  2000 ms) lie between \<open>t\<close> and \<open>now\<close>. And as long as the callbacks after the match
  read the clock at most 2000 ms after \<open>t\<close> (a gap of 1999 ms in particular), the state
  after each of them is not \<open>no-device\<close>, whether or not a new match ends the gap.
\<close>

theorem no_device_only_after_timeout:
  assumes "matchLoop gamepads = Some gamepad"
    and "list_all (notBefore t) post"
  shows "(connectionStatus (run (pollGamepads t gamepads s) post) \<noteq> NoDevice \<and>
          connectionStatus (pollGamepads now gamepads' (run (pollGamepads t gamepads s) post)) = NoDevice
          \<longrightarrow> 2000 < now - t) \<and>
         (list_all (notAfter (t + 2000)) post \<longrightarrow>
          (\<forall>k \<le> length post.
             connectionStatus (run (pollGamepads t gamepads s) (take k post)) \<noteq> NoDevice))"
proof (intro conjI impI allI)
  let ?s1 = "pollGamepads t gamepads s"
  have s1: "lastUpdate ?s1 = t" "connectionStatus ?s1 = Connected"
    using matched_state[OF assms(1)] by simp_all
  {
    assume a: "connectionStatus (run ?s1 post) \<noteq> NoDevice \<and>
          connectionStatus (pollGamepads now gamepads' (run ?s1 post)) = NoDevice"
    have "t \<le> lastUpdate (run ?s1 post)" using lastUpdate_run[OF assms(2)] s1 by simp
    moreover have "2000 < now - lastUpdate (run ?s1 post)"
      using a noDevice_pollGamepads by blast
    ultimately show "2000 < now - t" by simp
  }
  {
    fix k
    assume w: "list_all (notAfter (t + 2000)) post" and "k \<le> length post"
    have "list_all (notBefore t) (take k post)" "list_all (notAfter (t + 2000)) (take k post)"
      using assms(2) w by (auto simp: list_all_iff dest: in_set_takeD)
    then show "connectionStatus (run ?s1 (take k post)) \<noteq> NoDevice"
      using status_run s1 by simp
  }
qed

theorem no_device_only_after_timeout_witness:
  "matchLoop [Some \<lparr>gid = ''Simagic P2000'', axes = [0, 0, 0]\<rparr>] =
     Some \<lparr>gid = ''Simagic P2000'', axes = [0, 0, 0]\<rparr> \<and>
   list_all (notBefore 1000) [Poll 1016 [], HistoryTick] \<and>
   connectionStatus
     (run (pollGamepads 1000 [Some \<lparr>gid = ''Simagic P2000'', axes = [0, 0, 0]\<rparr>] (initialState 0))
        [Poll 1016 [], HistoryTick]) \<noteq> NoDevice \<and>
   connectionStatus
     (pollGamepads 3001 []
        (run (pollGamepads 1000 [Some \<lparr>gid = ''Simagic P2000'', axes = [0, 0, 0]\<rparr>] (initialState 0))
           [Poll 1016 [], HistoryTick])) = NoDevice \<and>
   (2000::int) < 3001 - 1000 \<and>
   list_all (notBefore 1000)
     [Poll 1016 [], HistoryTick, Poll 2999 [],
      Poll 2999 [Some \<lparr>gid = ''Simagic P2000'', axes = [0, 0, 0]\<rparr>]] \<and>
   list_all (notAfter (1000 + 2000))
     [Poll 1016 [], HistoryTick, Poll 2999 [],
      Poll 2999 [Some \<lparr>gid = ''Simagic P2000'', axes = [0, 0, 0]\<rparr>]] \<and>
   connectionStatus
     (run (pollGamepads 1000 [Some \<lparr>gid = ''Simagic P2000'', axes = [0, 0, 0]\<rparr>] (initialState 0))
        (take 3 [Poll 1016 [], HistoryTick, Poll 2999 [],
                 Poll 2999 [Some \<lparr>gid = ''Simagic P2000'', axes = [0, 0, 0]\<rparr>]])) \<noteq> NoDevice \<and>
   connectionStatus
     (run (pollGamepads 1000 [Some \<lparr>gid = ''Simagic P2000'', axes = [0, 0, 0]\<rparr>] (initialState 0))
        (take 4 [Poll 1016 [], HistoryTick, Poll 2999 [],
                 Poll 2999 [Some \<lparr>gid = ''Simagic P2000'', axes = [0, 0, 0]\<rparr>]])) \<noteq> NoDevice"
proof -
  let ?g = "\<lparr>gid = ''Simagic P2000'', axes = [0, 0, 0]\<rparr>"
  let ?post = "[Poll 1016 [], HistoryTick]"
  let ?gap = "[Poll 1016 [], HistoryTick, Poll 2999 [], Poll 2999 [Some ?g]]"
  let ?s1 = "pollGamepads 1000 [Some ?g] (initialState 0)"
  have m: "matchLoop [Some ?g] = Some ?g" by (simp add: isMatch_def)
  have nb: "list_all (notBefore 1000) ?post" and na: "list_all (notAfter (1000 + 2000)) ?post"
    by simp_all
  have gb: "list_all (notBefore 1000) ?gap" and ga: "list_all (notAfter (1000 + 2000)) ?gap"
    by simp_all
  note late = no_device_only_after_timeout[OF m nb, of "initialState 0" 3001 "[]"]
  note early = no_device_only_after_timeout[OF m gb, of "initialState 0" 0 "[]"]
  have x: "connectionStatus (run ?s1 ?post) \<noteq> NoDevice"
    using late na by auto
  have y: "connectionStatus (pollGamepads 3001 [] (run ?s1 ?post)) = NoDevice"
    by (simp add: run_def pollGamepads_def matchedUpdate_def historyTick_def isMatch_def Let_def)
  have z: "(2000::int) < 3001 - 1000" using late x y by blast
  have "\<forall>k \<le> length ?gap. connectionStatus (run ?s1 (take k ?gap)) \<noteq> NoDevice"
    using early ga by blast
  then have "3 \<le> length ?gap \<longrightarrow> connectionStatus (run ?s1 (take 3 ?gap)) \<noteq> NoDevice"
    and "4 \<le> length ?gap \<longrightarrow> connectionStatus (run ?s1 (take 4 ?gap)) \<noteq> NoDevice"
    by blast+
  moreover have "3 \<le> length ?gap" "4 \<le> length ?gap" by simp_all
  ultimately have w: "connectionStatus (run ?s1 (take 3 ?gap)) \<noteq> NoDevice"
    "connectionStatus (run ?s1 (take 4 ?gap)) \<noteq> NoDevice"
    by blast+
  show ?thesis using m nb x y z gb ga w by blast
qed

section \<open>Which device is matched\<close>

lemma includes_str_sublist: "includes_str s t \<longleftrightarrow> sublist t s"
  by (induction s) (auto simp: sublist_Cons_right)

lemma sublist_map_iff:
  "sublist t (map f s) \<longleftrightarrow> (\<exists>w. sublist w s \<and> map f w = t)"
proof
  assume "sublist t (map f s)"
  then obtain ps ss where "map f s = ps @ t @ ss" by (auto simp: sublist_def)
  then have "\<exists>p r. s = p @ r \<and> ps = map f p \<and> t @ ss = map f r"
    by (simp only: map_eq_append_conv)
  then obtain p r where s: "s = p @ r" and r: "map f r = t @ ss" by metis
  from r have "\<exists>w q. r = w @ q \<and> t = map f w \<and> ss = map f q"
    by (simp only: map_eq_append_conv)
  then obtain w q where "r = w @ q" and w: "map f w = t" by metis
  with s have "s = p @ w @ q" by simp
  then have "sublist w s" unfolding sublist_def by blast
  with w show "\<exists>w. sublist w s \<and> map f w = t" by blast
next
  assume "\<exists>w. sublist w s \<and> map f w = t"
  then obtain w where "sublist w s" and w: "map f w = t" by blast
  then obtain p q where "s = p @ w @ q" by (auto simp: sublist_def)
  then have "map f s = map f p @ t @ map f q" using w by simp
  then show "sublist t (map f s)" unfolding sublist_def by blast
qed


lemma includes_lower:
  "sublist token (toLowerCase s) \<longleftrightarrow> (\<exists>w. sublist w s \<and> toLowerCase w = token)"
  unfolding toLowerCase_def by (rule sublist_map_iff)

lemma matchLoop_Some_iff:
  "matchLoop gamepads = Some g \<longleftrightarrow>
     (\<exists>i < length gamepads. gamepads ! i = Some g \<and> isMatch g \<and>
        (\<forall>j < i. \<forall>h. gamepads ! j = Some h \<longrightarrow> \<not> isMatch h))"
proof (induction gamepads rule: matchLoop.induct)
  case 1
  then show ?case by simp
next
  case (2 gamepads)
  show ?case (is "?L \<longleftrightarrow> ?R")
  proof
    assume ?L
    then obtain i where i: "i < length gamepads" "gamepads ! i = Some g" "isMatch g"
      "\<forall>j < i. \<forall>h. gamepads ! j = Some h \<longrightarrow> \<not> isMatch h"
      using 2 by auto
    have "\<forall>j < Suc i. \<forall>h. (None # gamepads) ! j = Some h \<longrightarrow> \<not> isMatch h"
      using i(4) by (auto simp: nth_Cons split: nat.splits)
    with i show ?R by (intro exI[of _ "Suc i"]) simp
  next
    assume ?R
    then obtain i where i: "i < length (None # gamepads)" "(None # gamepads) ! i = Some g" "isMatch g"
      "\<forall>j < i. \<forall>h. (None # gamepads) ! j = Some h \<longrightarrow> \<not> isMatch h" by blast
    then obtain i' where i': "i = Suc i'" by (cases i) auto
    have "\<forall>j < i'. \<forall>h. gamepads ! j = Some h \<longrightarrow> \<not> isMatch h"
      using i(4) i' by fastforce
    with i i' have "\<exists>i < length gamepads. gamepads ! i = Some g \<and> isMatch g \<and>
        (\<forall>j < i. \<forall>h. gamepads ! j = Some h \<longrightarrow> \<not> isMatch h)" by auto
    then show ?L using 2 by simp
  qed
next
  case (3 gamepad gamepads)
  show ?case (is "?L \<longleftrightarrow> ?R")
  proof (cases "isMatch gamepad")
    case True
    show ?thesis
    proof
      assume ?L
      with True have "g = gamepad" by simp
      with True show ?R by (intro exI[of _ 0]) simp
    next
      assume ?R
      then obtain i where i: "i < length (Some gamepad # gamepads)"
        "(Some gamepad # gamepads) ! i = Some g" "isMatch g"
        "\<forall>j < i. \<forall>h. (Some gamepad # gamepads) ! j = Some h \<longrightarrow> \<not> isMatch h" by blast
      have "i = 0"
      proof (rule ccontr)
        assume "i \<noteq> 0"
        then have "0 < i" by simp
        with i(4) have "\<not> isMatch gamepad" by fastforce
        with True show False by simp
      qed
      with i True show ?L by simp
    qed
  next
    case False
    show ?thesis
    proof
      assume ?L
      with False have "matchLoop gamepads = Some g" by simp
      then obtain i where i: "i < length gamepads" "gamepads ! i = Some g" "isMatch g"
        "\<forall>j < i. \<forall>h. gamepads ! j = Some h \<longrightarrow> \<not> isMatch h"
        using 3 False by auto
      have "\<forall>j < Suc i. \<forall>h. (Some gamepad # gamepads) ! j = Some h \<longrightarrow> \<not> isMatch h"
        using i(4) False by (auto simp: nth_Cons split: nat.splits)
      with i show ?R by (intro exI[of _ "Suc i"]) simp
    next
      assume ?R
      then obtain i where i: "i < length (Some gamepad # gamepads)"
        "(Some gamepad # gamepads) ! i = Some g" "isMatch g"
        "\<forall>j < i. \<forall>h. (Some gamepad # gamepads) ! j = Some h \<longrightarrow> \<not> isMatch h" by blast
      from i False obtain i' where i': "i = Suc i'" by (cases i) auto
      have "\<forall>j < i'. \<forall>h. gamepads ! j = Some h \<longrightarrow> \<not> isMatch h"
        using i(4) i' by fastforce
      with i i' have "\<exists>i < length gamepads. gamepads ! i = Some g \<and> isMatch g \<and>
        (\<forall>j < i. \<forall>h. gamepads ! j = Some h \<longrightarrow> \<not> isMatch h)" by auto
      then show ?L using 3 False by simp
    qed
  qed
qed

text \<open>
  Claim C7. A device matches exactly when some stretch of its identifier equals one of the
  tokens \<open>simagic\<close>, \<open>p1000\<close>, \<open>p2000\<close> once lowercased, or it has at least 3 axes. The
  loop returns the device in the first slot, in enumeration order, that is non-empty and
  matches. "Simagic P2000" matches with any axes, "Generic USB Gamepad" with 4 axes
  matches, and "Mouse" with 2 axes does not match: polled alone it takes the generic path.
\<close>

theorem device_match_heuristic:
  "(isMatch g \<longleftrightarrow>
      (\<exists>token \<in> {''simagic'', ''p1000'', ''p2000''}.
         \<exists>w. sublist w (gid g) \<and> toLowerCase w = token) \<or>
      3 \<le> length (axes g)) \<and>
   (matchLoop gamepads = Some g \<longleftrightarrow>
      (\<exists>i < length gamepads. gamepads ! i = Some g \<and> isMatch g \<and>
         (\<forall>j < i. \<forall>h. gamepads ! j = Some h \<longrightarrow> \<not> isMatch h))) \<and>
   isMatch \<lparr>gid = ''Simagic P2000'', axes = ax\<rparr> \<and>
   (length ax4 = 4 \<longrightarrow> isMatch \<lparr>gid = ''Generic USB Gamepad'', axes = ax4\<rparr>) \<and>
   (length ax2 = 2 \<longrightarrow>
      \<not> isMatch \<lparr>gid = ''Mouse'', axes = ax2\<rparr> \<and>
      connectionStatus (pollGamepads now [Some \<lparr>gid = ''Mouse'', axes = ax2\<rparr>] s)
        = ConnectedGeneric)"
proof (intro conjI impI)
  show "isMatch g \<longleftrightarrow>
      (\<exists>token \<in> {''simagic'', ''p1000'', ''p2000''}.
         \<exists>w. sublist w (gid g) \<and> toLowerCase w = token) \<or>
      3 \<le> length (axes g)"
    by (simp add: isMatch_def includes_str_sublist includes_lower)
  show "matchLoop gamepads = Some g \<longleftrightarrow>
      (\<exists>i < length gamepads. gamepads ! i = Some g \<and> isMatch g \<and>
         (\<forall>j < i. \<forall>h. gamepads ! j = Some h \<longrightarrow> \<not> isMatch h))"
    by (rule matchLoop_Some_iff)
  show "isMatch \<lparr>gid = ''Simagic P2000'', axes = ax\<rparr>"
    by (simp add: isMatch_def toLowerCase_def toLowerChar_def)
  show "isMatch \<lparr>gid = ''Generic USB Gamepad'', axes = ax4\<rparr>" if "length ax4 = 4"
    using that by (simp add: isMatch_def)
  show mouse: "\<not> isMatch \<lparr>gid = ''Mouse'', axes = ax2\<rparr>" if "length ax2 = 2"
    using that by (simp add: isMatch_def toLowerCase_def toLowerChar_def)
  show "connectionStatus (pollGamepads now [Some \<lparr>gid = ''Mouse'', axes = ax2\<rparr>] s)
        = ConnectedGeneric" if "length ax2 = 2"
    using that mouse by (simp add: pollGamepads_def genericUpdate_def Let_def)
qed

theorem device_match_heuristic_witness:
  "length [0, 0, 0, 0 :: real] = 4 \<and>
   isMatch \<lparr>gid = ''Generic USB Gamepad'', axes = [0, 0, 0, 0]\<rparr> \<and>
   length [0.3, 0.4 :: real] = 2 \<and>
   \<not> isMatch \<lparr>gid = ''Mouse'', axes = [0.3, 0.4]\<rparr> \<and>
   connectionStatus (pollGamepads 16 [Some \<lparr>gid = ''Mouse'', axes = [0.3, 0.4]\<rparr>] (initialState 0))
     = ConnectedGeneric \<and>
   matchLoop [None, Some \<lparr>gid = ''Mouse'', axes = [0.3, 0.4]\<rparr>,
              Some \<lparr>gid = ''Generic USB Gamepad'', axes = [0, 0, 0, 0]\<rparr>,
              Some \<lparr>gid = ''Simagic P2000'', axes = []\<rparr>]
     = Some \<lparr>gid = ''Generic USB Gamepad'', axes = [0, 0, 0, 0]\<rparr>"
proof -
  have l4: "length [0, 0, 0, 0 :: real] = 4" and l2: "length [0.3, 0.4 :: real] = 2"
    by simp_all
  note th = device_match_heuristic[of _ _ "[]" "[0, 0, 0, 0]" "[0.3, 0.4]" 16 "initialState 0"]
  have g: "isMatch \<lparr>gid = ''Generic USB Gamepad'', axes = [0, 0, 0, 0]\<rparr>"
    using th l4 by blast
  have n: "\<not> isMatch \<lparr>gid = ''Mouse'', axes = [0.3, 0.4]\<rparr>"
    using th l2 by blast
  have c: "connectionStatus
      (pollGamepads 16 [Some \<lparr>gid = ''Mouse'', axes = [0.3, 0.4]\<rparr>] (initialState 0))
     = ConnectedGeneric"
    using th l2 by blast
  have f: "matchLoop [None, Some \<lparr>gid = ''Mouse'', axes = [0.3, 0.4]\<rparr>,
              Some \<lparr>gid = ''Generic USB Gamepad'', axes = [0, 0, 0, 0]\<rparr>,
              Some \<lparr>gid = ''Simagic P2000'', axes = []\<rparr>]
     = Some \<lparr>gid = ''Generic USB Gamepad'', axes = [0, 0, 0, 0]\<rparr>"
    using g n by simp
  show ?thesis using l4 g l2 n c f by blast
qed

section \<open>Drawing with fewer than two samples\<close>

lemma gridLines_unfold:
  "gridLines w h =
     [BeginPath, MoveTo 0 0, LineTo w 0, Stroke,
      BeginPath, MoveTo 0 (h / 4), LineTo w (h / 4), Stroke,
      BeginPath, MoveTo 0 (h / 4 * 2), LineTo w (h / 4 * 2), Stroke,
      BeginPath, MoveTo 0 (h / 4 * 3), LineTo w (h / 4 * 3), Stroke,
      BeginPath, MoveTo 0 (h / 4 * 4), LineTo w (h / 4 * 4), Stroke]"
proof -
  have "[0..<5] = [0, 1, 2, 3, 4]" by (simp add: upt_rec)
  then show ?thesis by (simp add: gridLines_def Let_def)
qed

lemma reads_forEachFrom: "i \<in> set (reads (forEachFrom k xs f)) \<Longrightarrow> i < length xs"
proof (induction k xs f rule: forEachFrom.induct)
  case (1 k xs callback)
  then show ?case
    by (subst (asm) forEachFrom.simps) (auto simp: Let_def split: if_splits)
qed

lemma reads_draw: "i \<in> set (reads (draw canvasRef hist)) \<Longrightarrow> i < length hist"
  by (auto simp: draw_def drawAxis_def Let_def split: option.splits if_splits
      dest: reads_forEachFrom)

text \<open>
  Claim C8. When the history buffer holds fewer than 2 samples, the draw effect makes
  exactly the calls that paint the background and stroke the grid lines (or none at all,
  when the canvas or its context is missing): no series line is drawn and the buffer is
  read at no index.
\<close>

theorem draw_few_samples:
  assumes "length hist < 2"
  shows "draw None hist = \<lparr>ops = [], reads = []\<rparr> \<and>
         (\<not> c_context canvas \<longrightarrow> draw (Some canvas) hist = \<lparr>ops = [], reads = []\<rparr>) \<and>
         (c_context canvas \<longrightarrow>
            draw (Some canvas) hist =
              \<lparr>ops = [SetFillStyle ''#0a0a0a'', FillRect 0 0 (c_width canvas) (c_height canvas),
                      SetStrokeStyle ''#2a2a2a'', SetLineWidth 1,
                      BeginPath, MoveTo 0 0, LineTo (c_width canvas) 0, Stroke,
                      BeginPath, MoveTo 0 (c_height canvas / 4),
                        LineTo (c_width canvas) (c_height canvas / 4), Stroke,
                      BeginPath, MoveTo 0 (c_height canvas / 4 * 2),
                        LineTo (c_width canvas) (c_height canvas / 4 * 2), Stroke,
                      BeginPath, MoveTo 0 (c_height canvas / 4 * 3),
                        LineTo (c_width canvas) (c_height canvas / 4 * 3), Stroke,
                      BeginPath, MoveTo 0 (c_height canvas / 4 * 4),
                        LineTo (c_width canvas) (c_height canvas / 4 * 4), Stroke],
                reads = []\<rparr>)"
  using assms by (simp add: draw_def gridLines_unfold Let_def)


theorem draw_few_samples_witness:
  "length [\<lparr>h_throttle = 75, h_brake = 25, h_steering = 10\<rparr>] < 2 \<and>
   c_context \<lparr>c_width = 1200, c_height = 300, c_context = True\<rparr> \<and>
   draw (Some \<lparr>c_width = 1200, c_height = 300, c_context = True\<rparr>)
        [\<lparr>h_throttle = 75, h_brake = 25, h_steering = 10\<rparr>] =
     \<lparr>ops = [SetFillStyle ''#0a0a0a'', FillRect 0 0 1200 300,
             SetStrokeStyle ''#2a2a2a'', SetLineWidth 1,
             BeginPath, MoveTo 0 0, LineTo 1200 0, Stroke,
             BeginPath, MoveTo 0 75, LineTo 1200 75, Stroke,
             BeginPath, MoveTo 0 150, LineTo 1200 150, Stroke,
             BeginPath, MoveTo 0 225, LineTo 1200 225, Stroke,
             BeginPath, MoveTo 0 300, LineTo 1200 300, Stroke],
       reads = []\<rparr>"
proof -
  let ?h = "[\<lparr>h_throttle = 75, h_brake = 25, h_steering = 10\<rparr>]"
  let ?c = "\<lparr>c_width = 1200, c_height = 300, c_context = True\<rparr>"
  have l: "length ?h < 2" by simp
  have c: "c_context ?c" by simp
  show ?thesis using draw_few_samples[OF l, of ?c] l c by simp
qed

section \<open>A present but unusable device blocks the timeout\<close>

lemma find_present:
  "list_all fewAxes gamepads \<Longrightarrow> List.find (\<lambda>g. g \<noteq> None) gamepads = Some (Some gamepad)
   \<Longrightarrow> length (axes gamepad) < 2"
proof (induction gamepads)
  case Nil
  then show ?case by simp
next
  case (Cons g gamepads)
  then show ?case by (cases g) auto
qed

lemma pollGamepads_unusable:
  assumes "presentUnusable gamepads"
  shows "pollGamepads now gamepads s = s"
proof -
  from assms have ex: "list_ex (\<lambda>g. g \<noteq> None) gamepads" and m: "matchLoop gamepads = None"
    and few: "list_all fewAxes gamepads" by (simp_all add: presentUnusable_def)
  show ?thesis
  proof (cases "List.find (\<lambda>g. g \<noteq> None) gamepads")
    case None
    then show ?thesis using ex m by (simp add: pollGamepads_def)
  next
    case (Some g)
    show ?thesis
    proof (cases g)
      case None
      with Some show ?thesis using ex m by (simp add: pollGamepads_def)
    next
      case (Some gamepad)
      with \<open>List.find (\<lambda>g. g \<noteq> None) gamepads = Some g\<close>
      have f: "List.find (\<lambda>g. g \<noteq> None) gamepads = Some (Some gamepad)" by simp
      with few have "length (axes gamepad) < 2" by (rule find_present)
      then show ?thesis using ex m f by (simp add: pollGamepads_def genericUpdate_def)
    qed
  qed
qed

lemma status_step_unusable:
  "pollsUnusable e \<Longrightarrow> connectionStatus s \<noteq> NoDevice \<Longrightarrow> connectionStatus (step s e) \<noteq> NoDevice"
  by (cases e) (simp_all add: pollGamepads_unusable historyTick_def refresh_def)

text \<open>
  Claim C10. A poll that sees some non-empty slot, no matching device, and fewer than 2
  axes on every device present leaves the whole state as it was, whatever the clock says.
  So over any run of callbacks in which every poll is of this kind, a connection state
  other than \<open>no-device\<close> never becomes \<open>no-device\<close>.
\<close>

theorem no_timeout_while_unusable_present:
  "(presentUnusable gamepads \<longrightarrow> pollGamepads now gamepads s = s) \<and>
   (list_all pollsUnusable evs \<and> connectionStatus s \<noteq> NoDevice \<longrightarrow>
      connectionStatus (run s evs) \<noteq> NoDevice)"
proof (intro conjI impI)
  assume "presentUnusable gamepads"
  then show "pollGamepads now gamepads s = s" by (rule pollGamepads_unusable)
next
  assume "list_all pollsUnusable evs \<and> connectionStatus s \<noteq> NoDevice"
  then have "list_all pollsUnusable evs" "connectionStatus s \<noteq> NoDevice" by simp_all
  then show "connectionStatus (run s evs) \<noteq> NoDevice"
    unfolding run_def
  proof (induction evs arbitrary: s)
    case Nil
    then show ?case by simp
  next
    case (Cons e evs)
    then have "connectionStatus (step s e) \<noteq> NoDevice" by (simp add: status_step_unusable)
    with Cons show ?case by simp
  qed
qed


theorem no_timeout_while_unusable_present_witness:
  "presentUnusable [None, Some \<lparr>gid = ''Mouse'', axes = [0.5]\<rparr>] \<and>
   pollGamepads 999999 [None, Some \<lparr>gid = ''Mouse'', axes = [0.5]\<rparr>] (initialState 0) = initialState 0 \<and>
   list_all pollsUnusable [Poll 5000 [None, Some \<lparr>gid = ''Mouse'', axes = [0.5]\<rparr>], HistoryTick,
      Poll 999999 [Some \<lparr>gid = ''Mouse'', axes = [0.5]\<rparr>]] \<and>
   connectionStatus (initialState 0) \<noteq> NoDevice \<and>
   connectionStatus (run (initialState 0)
     [Poll 5000 [None, Some \<lparr>gid = ''Mouse'', axes = [0.5]\<rparr>], HistoryTick,
      Poll 999999 [Some \<lparr>gid = ''Mouse'', axes = [0.5]\<rparr>]]) \<noteq> NoDevice"
proof -
  let ?m = "\<lparr>gid = ''Mouse'', axes = [0.5]\<rparr>"
  let ?evs = "[Poll 5000 [None, Some ?m], HistoryTick, Poll 999999 [Some ?m]]"
  have nm: "\<not> isMatch ?m" by (simp add: isMatch_def toLowerCase_def toLowerChar_def)
  have p: "presentUnusable [None, Some ?m]" "presentUnusable [Some ?m]"
    using nm by (simp_all add: presentUnusable_def)
  then have l: "list_all pollsUnusable ?evs" by simp
  have i: "connectionStatus (initialState 0) \<noteq> NoDevice" by (simp add: initialState_def)
  have "pollGamepads 999999 [None, Some ?m] (initialState 0) = initialState 0"
    using no_timeout_while_unusable_present[of "[None, Some ?m]" 999999 "initialState 0" "[]"] p(1)
    by blast
  moreover have "connectionStatus (run (initialState 0) ?evs) \<noteq> NoDevice"
    using no_timeout_while_unusable_present[of "[]" 0 "initialState 0" ?evs] l i by blast
  ultimately show ?thesis using p(1) l i by blast
qed

section \<open>Session peaks\<close>

text \<open>
  Every callback leaves the three peaks at least as large as they were, and a matched poll
  raises each peak to the new reading when that is larger.
\<close>

lemma sessionStats_step_mono:
  "peakThrottle (sessionStats s) \<le> peakThrottle (sessionStats (step s e)) \<and>
   peakBrake (sessionStats s) \<le> peakBrake (sessionStats (step s e)) \<and>
   peakSteering (sessionStats s) \<le> peakSteering (sessionStats (step s e))"
  by (cases e)
    (simp_all add: pollGamepads_def matchedUpdate_def genericUpdate_def historyTick_def
      refresh_def Let_def split: option.splits)

lemma sessionStats_matched:
  assumes "matchLoop gamepads = Some gamepad"
  shows "peakThrottle (sessionStats (pollGamepads now gamepads s)) =
           max (peakThrottle (sessionStats s)) (throttle (pollGamepads now gamepads s)) \<and>
         peakBrake (sessionStats (pollGamepads now gamepads s)) =
           max (peakBrake (sessionStats s)) (brake (pollGamepads now gamepads s)) \<and>
         peakSteering (sessionStats (pollGamepads now gamepads s)) =
           max (peakSteering (sessionStats s)) \<bar>steeringAngle (pollGamepads now gamepads s)\<bar>"
  using assms by (simp add: pollGamepads_def matchedUpdate_def Let_def)

text \<open>
  Claim C5. The claim asks that after every poll, matched or generic, the throttle peak is
  the largest throttle percent seen. The generic branch stores a new throttle percent and
  does not touch the statistics: on the first poll of a session, a two-axis "Mouse"
  whose axis 1 reads \<open>-0.5\<close> gives throttle 75 while the peak stays 0.
\<close>

theorem generic_path_skips_peaks:
  "connectionStatus (pollGamepads 16 [Some \<lparr>gid = ''Mouse'', axes = [0.5, - 0.5]\<rparr>] (initialState 0))
     = ConnectedGeneric \<and>
   throttle (pollGamepads 16 [Some \<lparr>gid = ''Mouse'', axes = [0.5, - 0.5]\<rparr>] (initialState 0)) = 75 \<and>
   peakThrottle (sessionStats
     (pollGamepads 16 [Some \<lparr>gid = ''Mouse'', axes = [0.5, - 0.5]\<rparr>] (initialState 0))) = 0"
  by (simp add: pollGamepads_def isMatch_def toLowerCase_def toLowerChar_def genericUpdate_def
      axisAt_def orNum_def orOpt_def initialState_def Let_def)


section \<open>Pedal percentages on the generic path\<close>

text \<open>
  On the generic path the device has exactly two axes. The brake percent is the inverted
  formula on axis 0 for every reading, and the throttle percent is the inverted formula on
  axis 1 for every reading but 0.
\<close>

lemma generic_percentages:
  assumes "\<not> isMatch \<lparr>gid = name, axes = [c, a]\<rparr>"
  shows "brake (pollGamepads now [Some \<lparr>gid = name, axes = [c, a]\<rparr>] s) = ((1 - c) / 2) * 100 \<and>
         (a \<noteq> 0 \<longrightarrow>
            throttle (pollGamepads now [Some \<lparr>gid = name, axes = [c, a]\<rparr>] s) = ((1 - a) / 2) * 100) \<and>
         (a = 0 \<longrightarrow>
            throttle (pollGamepads now [Some \<lparr>gid = name, axes = [c, a]\<rparr>] s) = 100)"
proof (cases "a = 0")
  case True
  with assms show ?thesis
    by (simp add: pollGamepads_def genericUpdate_def axisAt_def orNum_def orOpt_def Let_def)
next
  case False
  with assms show ?thesis
    by (simp add: pollGamepads_def genericUpdate_def axisAt_def orNum_def orOpt_def Let_def)
qed

text \<open>
  Claim C6. The claim asks for \<open>((1 - a) / 2) * 100\<close> at every reading \<open>a\<close> of the
  axis. With a two-axis "Mouse" whose axis 1 reads 0, \<open>axes[1] || -1\<close> is \<open>-1\<close> and
  the throttle percent is 100, where the formula gives 50.
\<close>

theorem generic_throttle_at_zero:
  "connectionStatus (pollGamepads 16 [Some \<lparr>gid = ''Mouse'', axes = [0.5, 0]\<rparr>] (initialState 0))
     = ConnectedGeneric \<and>
   throttle (pollGamepads 16 [Some \<lparr>gid = ''Mouse'', axes = [0.5, 0]\<rparr>] (initialState 0)) = 100 \<and>
   ((1 - 0) / 2) * 100 = (50::real)"
  by (simp add: pollGamepads_def isMatch_def toLowerCase_def toLowerChar_def genericUpdate_def
      axisAt_def orNum_def orOpt_def initialState_def Let_def)

end
